theory Spec2Isabelle
  imports Main
begin

section \<open>Errors\<close>

text \<open>
  The Python exceptions the modelled code raises, or lets through from the storage
  layer. A mutating operation returns \<open>error option\<close> (\<open>None\<close>: it returned normally)
  together with the file as the call left it, since an exception does not undo what
  was already written; a read returns \<open>error + value\<close>.
\<close>

datatype error = ValueError | AttributeError | KeyError | TypeError | IndexError

section \<open>The checkpoint file (src/lisatools/globalfit/hdfbackend.py)\<close>

text \<open>
  A dataset keeps its entries along the iteration axis (axis 0) in \<open>rows\<close>; one entry
  is the whole block of the trailing dimensions, a value of a type with a zero (the
  all-zero block, HDF5's fill value). \<open>rowshape\<close> records the trailing dimensions as
  \<open>create_dataset\<close> was given them. \<open>chunked\<close> and \<open>maxlen\<close> are what
  \<open>Dataset.resize\<close> of the storage library looks at: only a chunked dataset can be
  resized, and only up to \<open>maxshape[0]\<close> (\<open>None\<close>: unlimited).
\<close>

record 'r dataset =
  rows :: "'r list"
  rowshape :: "int list"
  chunked :: bool
  maxlen :: "nat option"

text \<open>
  The group \<open>f[self.name]\<close>: its attributes, the base ensemble arrays (owned by the
  base store \<open>eryn.backends.HDFBackend\<close>, an external collaborator; they are resized
  and written together, so one dataset stands for the family), and the sub-group
  \<open>band_info\<close> with its own attributes and its datasets in the order of creation.
\<close>

record 'r group =
  attrs :: "string \<rightharpoonup> nat"
  base :: "'r dataset"
  band_attrs :: "string \<rightharpoonup> nat"
  band_info :: "(string \<times> 'r dataset) list"

text \<open>
  The backend object: \<open>compression\<close> says whether \<open>self.compression\<close> is not None;
  \<open>contents\<close> is \<open>None\<close> as long as the file holds no group \<open>self.name\<close>, which is
  what the base store's \<open>initialized\<close> property tests.
\<close>

record 'r backend =
  compression :: bool
  contents :: "'r group option"

definition initialized :: "'r backend \<Rightarrow> bool" where
  "initialized b = (contents b \<noteq> None)"

definition get_attr :: "(string \<rightharpoonup> nat) \<Rightarrow> string \<Rightarrow> error + nat" where
  "get_attr m k = (case m k of None \<Rightarrow> Inl KeyError | Some v \<Rightarrow> Inr v)"

subsection \<open>Creating datasets\<close>

text \<open>
  \<open>create_dataset(name, (0, ...), maxshape=(None, ...))\<close>: no entries, resizable
  without bound (a maxshape makes the storage library chunk the dataset).
\<close>

definition create_growable :: "int list \<Rightarrow> 'r dataset" where
  "create_growable shape = \<lparr>rows = [], rowshape = shape, chunked = True, maxlen = None\<rparr>"

text \<open>
  \<open>create_dataset(name, data=..., compression=self.compression)\<close>: no maxshape is
  given, so the maximal shape is the shape of the data, and the dataset is chunked only
  when a compression filter asks for it.
\<close>

definition create_from_data :: "bool \<Rightarrow> 'r list \<Rightarrow> 'r dataset" where
  "create_from_data compr xs =
     \<lparr>rows = xs, rowshape = [], chunked = compr, maxlen = Some (length xs)\<rparr>"

subsection \<open>reset\<close>

text \<open>
  Modelled from the spec: the base store's \<open>reset\<close> is not under src/. The spec says it
  "performs the base-store reset (ensemble array skeletons, zero iterations)": a fresh
  group with the iteration counter at zero and zero-length, growable base arrays.
\<close>

definition base_reset :: "nat \<Rightarrow> nat \<Rightarrow> 'r group" where
  "base_reset nwalkers ntemps =
     \<lparr>attrs = [''iteration'' \<mapsto> 0],
      base = create_growable [int ntemps, int nwalkers],
      band_attrs = Map.empty,
      band_info = []\<rparr>"

definition reset ::
  "nat \<Rightarrow> nat \<Rightarrow> nat option \<Rightarrow> 'r list option \<Rightarrow> 'r backend \<Rightarrow> error option \<times> 'r backend" where
  "reset nwalkers ntemps num_bands band_edges b =
     (case num_bands of
        None \<Rightarrow> (Some ValueError, b)
      | Some nb \<Rightarrow>
          (case band_edges of
             None \<Rightarrow> (Some ValueError, b)
           | Some be \<Rightarrow>
               (let g = base_reset nwalkers ntemps;
                    nb' = int nb; nt = int ntemps; nw = int nwalkers
                in (None,
                    b\<lparr>contents := Some (g\<lparr>
                      band_attrs := [''num_bands'' \<mapsto> length be],
                      band_info :=
                        [(''band_edges'', create_from_data (compression b) be),
                         (''band_temps'', create_growable [nb', nt]),
                         (''band_swaps_proposed'', create_growable [nb', nt - 1]),
                         (''band_swaps_accepted'', create_growable [nb', nt - 1]),
                         (''band_num_proposed'', create_growable [nb', nt]),
                         (''band_num_accepted'', create_growable [nb', nt]),
                         (''band_num_proposed_rj'', create_growable [nb', nt]),
                         (''band_num_accepted_rj'', create_growable [nb', nt]),
                         (''band_num_binaries'', create_growable [nt, nw, nb'])]\<rparr>)\<rparr>))))"

subsection \<open>The properties num_bands and band_edges\<close>

definition num_bands :: "'r backend \<Rightarrow> error + nat" where
  "num_bands b =
     (case contents b of
        None \<Rightarrow> Inl KeyError
      | Some g \<Rightarrow> get_attr (band_attrs g) ''num_bands'')"

text \<open>The source reads the attribute \<open>num_bands\<close> of the group itself here.\<close>

definition band_edges :: "'r backend \<Rightarrow> error + nat" where
  "band_edges b =
     (case contents b of
        None \<Rightarrow> Inl KeyError
      | Some g \<Rightarrow> get_attr (attrs g) ''num_bands'')"

subsection \<open>grow\<close>

text \<open>
  \<open>Dataset.resize(n, axis=0)\<close> of the storage library: a TypeError for a dataset that
  is not chunked, a ValueError beyond the maximal shape; otherwise the entries are cut
  or padded with the fill value to \<open>n\<close>.
\<close>

definition resize :: "nat \<Rightarrow> 'r::zero dataset \<Rightarrow> error + 'r dataset" where
  "resize n d =
     (if \<not> chunked d then Inl TypeError
      else if (case maxlen d of None \<Rightarrow> False | Some m \<Rightarrow> m < n) then Inl ValueError
      else Inr (d\<lparr>rows := take n (rows d) @ replicate (n - length (rows d)) 0\<rparr>))"

text \<open>
  The loop \<open>for key in g["band_info"]: g["band_info"][key].resize(ntot, axis=0)\<close>:
  it stops at the first resize that raises; the datasets before it stay resized.
\<close>

fun resize_all ::
  "nat \<Rightarrow> (string \<times> 'r::zero dataset) list \<Rightarrow> error option \<times> (string \<times> 'r dataset) list" where
  "resize_all n [] = (None, [])"
| "resize_all n ((key, d) # ds) =
     (case resize n d of
        Inl e \<Rightarrow> (Some e, (key, d) # ds)
      | Inr d' \<Rightarrow> (case resize_all n ds of (r, ds') \<Rightarrow> (r, (key, d') # ds')))"

text \<open>
  Modelled from the spec: the base store's \<open>grow\<close> is not under src/. The spec says it
  "extends base arrays by nIterations": to the iteration counter plus \<open>ngrow\<close>.
\<close>

definition base_grow :: "nat \<Rightarrow> 'r::zero backend \<Rightarrow> error option \<times> 'r backend" where
  "base_grow ngrow b =
     (case contents b of
        None \<Rightarrow> (Some KeyError, b)
      | Some g \<Rightarrow>
          (case attrs g ''iteration'' of
             None \<Rightarrow> (Some KeyError, b)
           | Some it \<Rightarrow>
               (case resize (it + ngrow) (base g) of
                  Inl e \<Rightarrow> (Some e, b)
                | Inr d \<Rightarrow> (None, b\<lparr>contents := Some (g\<lparr>base := d\<rparr>)\<rparr>))))"

definition grow :: "nat \<Rightarrow> 'r::zero backend \<Rightarrow> error option \<times> 'r backend" where
  "grow ngrow b =
     (case base_grow ngrow b of
        (Some e, b1) \<Rightarrow> (Some e, b1)
      | (None, b1) \<Rightarrow>
          (case contents b1 of
             None \<Rightarrow> (Some KeyError, b1)
           | Some g \<Rightarrow>
               (case attrs g ''iteration'' of
                  None \<Rightarrow> (Some KeyError, b1)
                | Some it \<Rightarrow>
                    (let ntot = it + ngrow
                     in (case resize_all ntot (band_info g) of
                           (r, ds) \<Rightarrow> (r, b1\<lparr>contents := Some (g\<lparr>band_info := ds\<rparr>)\<rparr>))))))"

subsection \<open>save_step\<close>

text \<open>
  The sampler's state as \<open>save_step\<close> sees it: the part the base store persists, and
  the dict \<open>state.band_info\<close>, in insertion order. A value of the dict is a numpy
  array (one entry of a diagnostics dataset) or something else, which the loop skips.
\<close>

datatype 'r entry = NdArray 'r | NotArray

record 'r state =
  coords :: "'r"
  state_band_info :: "(string \<times> 'r entry) list"

text \<open>
  \<open>dataset[i] = dat\<close> of the storage library, for an index that is not negative: an
  IndexError beyond the last entry.
\<close>

definition write_row :: "nat \<Rightarrow> 'r \<Rightarrow> 'r dataset \<Rightarrow> error + 'r dataset" where
  "write_row i dat d =
     (if i < length (rows d) then Inr (d\<lparr>rows := (rows d)[i := dat]\<rparr>) else Inl IndexError)"

text \<open>Storing the dataset back under its name in the group.\<close>

fun put ::
  "string \<Rightarrow> 'r dataset \<Rightarrow> (string \<times> 'r dataset) list \<Rightarrow> (string \<times> 'r dataset) list" where
  "put name d [] = []"
| "put name d ((k, d0) # ds) = (if k = name then (k, d) # ds else (k, d0) # put name d ds)"

text \<open>
  The loop \<open>for name, dat in state.band_info.items()\<close>: an entry that is not an array,
  or is named \<open>band_edges\<close>, is skipped; \<open>g["band_info"][name]\<close> raises KeyError for a
  name the group does not hold. The datasets written before a failure stay written.
\<close>

fun write_band_info ::
  "nat \<Rightarrow> (string \<times> 'r entry) list \<Rightarrow> (string \<times> 'r dataset) list
     \<Rightarrow> error option \<times> (string \<times> 'r dataset) list" where
  "write_band_info i [] ds = (None, ds)"
| "write_band_info i ((name, NotArray) # items) ds = write_band_info i items ds"
| "write_band_info i ((name, NdArray dat) # items) ds =
     (if name = ''band_edges'' then write_band_info i items ds
      else (case map_of ds name of
              None \<Rightarrow> (Some KeyError, ds)
            | Some d \<Rightarrow>
                (case write_row i dat d of
                   Inl e \<Rightarrow> (Some e, ds)
                 | Inr d' \<Rightarrow> write_band_info i items (put name d' ds))))"

text \<open>
  Modelled from the spec: the base store's \<open>save_step\<close> is not under src/. The spec says
  it persists the base arrays and "advances the iteration counter by one"; the entry is
  written at the counter's old value, which must lie inside the grown arrays.
\<close>

definition base_save_step :: "'r state \<Rightarrow> 'r backend \<Rightarrow> error option \<times> 'r backend" where
  "base_save_step s b =
     (case contents b of
        None \<Rightarrow> (Some KeyError, b)
      | Some g \<Rightarrow>
          (case attrs g ''iteration'' of
             None \<Rightarrow> (Some KeyError, b)
           | Some it \<Rightarrow>
               (case write_row it (coords s) (base g) of
                  Inl e \<Rightarrow> (Some e, b)
                | Inr d \<Rightarrow>
                    (None, b\<lparr>contents :=
                       Some (g\<lparr>base := d, attrs := (attrs g)(''iteration'' \<mapsto> it + 1)\<rparr>)\<rparr>))))"

text \<open>
  Modelled from the spec: \<open>State.reset_band_counters\<close> (lisatools/globalfit/state.py) is
  not under src/. The spec says "the caller's ensembleState counters are zeroed": every
  array that \<open>save_step\<close> writes is set to zero.
\<close>

definition reset_band_counters :: "'r::zero state \<Rightarrow> 'r state" where
  "reset_band_counters s =
     s\<lparr>state_band_info :=
         map (\<lambda>(name, dat).
                (case dat of
                   NotArray \<Rightarrow> (name, dat)
                 | NdArray v \<Rightarrow> if name = ''band_edges'' then (name, dat) else (name, NdArray 0)))
             (state_band_info s)\<rparr>"

text \<open>
  \<open>save_step\<close>: the base store commits first; \<open>hasattr(self, "num_bands")\<close> evaluates
  the property, which raises KeyError when the attribute is missing; then the loop
  writes at the committed index, and only after it the state's counters are reset.
\<close>

definition save_step ::
  "'r::zero state \<Rightarrow> 'r backend \<Rightarrow> error option \<times> 'r backend \<times> 'r state" where
  "save_step s b =
     (case base_save_step s b of
        (Some e, b1) \<Rightarrow> (Some e, b1, s)
      | (None, b1) \<Rightarrow>
          (case contents b1 of
             None \<Rightarrow> (Some KeyError, b1, s)
           | Some g \<Rightarrow>
               (case attrs g ''iteration'' of
                  None \<Rightarrow> (Some KeyError, b1, s)
                | Some it1 \<Rightarrow>
                    (let iteration = it1 - 1
                     in (case num_bands b1 of
                           Inl e \<Rightarrow> (Some e, b1, s)
                         | Inr _ \<Rightarrow>
                             (case write_band_info iteration (state_band_info s) (band_info g) of
                                (Some e, ds) \<Rightarrow>
                                  (Some e, b1\<lparr>contents := Some (g\<lparr>band_info := ds\<rparr>)\<rparr>, s)
                              | (None, ds) \<Rightarrow>
                                  (None, b1\<lparr>contents := Some (g\<lparr>band_info := ds\<rparr>)\<rparr>,
                                   reset_band_counters s)))))))"

text \<open>
  What one call of \<open>save_step\<close> may change in a dataset of the diagnostics group: the
  dataset keeps its name and its length, and every entry but the one at index \<open>i\<close>.
\<close>

definition row_frame :: "nat \<Rightarrow> (string \<times> 'r dataset) \<Rightarrow> (string \<times> 'r dataset) \<Rightarrow> bool" where
  "row_frame i = (\<lambda>(k, d) (k', d'). k' = k \<and> length (rows d') = length (rows d)
      \<and> (\<forall>j. j \<noteq> i \<longrightarrow> rows d' ! j = rows d ! j))"

subsection \<open>get_value, get_band_info, get_a_sample\<close>

text \<open>
  A slice object \<open>slice(start, stop, step)\<close>; each part may be None. (An index array as
  \<open>slice_vals\<close> is outside this model.)
\<close>

datatype selection = Slice "int option" "int option" "int option"

text \<open>Python's \<open>slice.indices\<close> for one bound and a positive step.\<close>

definition clamp_index :: "nat \<Rightarrow> int \<Rightarrow> nat" where
  "clamp_index n i = (if i < 0 then nat (max (i + int n) 0) else min (nat i) n)"

text \<open>\<open>range(lo, hi, step)\<close> for \<open>step \<ge> 1\<close>.\<close>

definition slice_indices :: "nat \<Rightarrow> nat \<Rightarrow> nat \<Rightarrow> nat list" where
  "slice_indices lo hi step = map (\<lambda>k. lo + k * step) [0..<(hi - lo + step - 1) div step]"

text \<open>\<open>dataset[slice]\<close>: the storage library refuses a step below 1.\<close>

fun getitem :: "selection \<Rightarrow> 'r list \<Rightarrow> error + 'r list" where
  "getitem (Slice start stop step) xs =
     (let st = (case step of None \<Rightarrow> 1 | Some s \<Rightarrow> s)
      in if st < 1 then Inl ValueError
         else (let n = length xs;
                   lo = (case start of None \<Rightarrow> 0 | Some i \<Rightarrow> clamp_index n i);
                   hi = (case stop of None \<Rightarrow> n | Some i \<Rightarrow> clamp_index n i)
               in Inr (map (\<lambda>i. xs ! i) (slice_indices lo hi (nat st)))))"

text \<open>The dict comprehension \<open>{key: g["band_info"][key][slice_vals] for key in ...}\<close>.\<close>

fun getitem_all ::
  "selection \<Rightarrow> (string \<times> 'r dataset) list \<Rightarrow> error + (string \<times> 'r list) list" where
  "getitem_all sv [] = Inr []"
| "getitem_all sv ((key, d) # ds) =
     (case getitem sv (rows d) of
        Inl e \<Rightarrow> Inl e
      | Inr v \<Rightarrow>
          (case getitem_all sv ds of
             Inl e \<Rightarrow> Inl e
           | Inr vs \<Rightarrow> Inr ((key, v) # vs)))"

text \<open>
  The slice \<open>xs[start : stop : step]\<close> in the words of the spec's thinning law, for
  bounds that are not negative and \<open>step \<ge> 1\<close>: the entries at the indices below
  \<open>stop\<close> that lie a multiple of \<open>step\<close> past \<open>start\<close>, in ascending order.
\<close>

definition spec_slice :: "nat \<Rightarrow> nat \<Rightarrow> nat \<Rightarrow> 'r list \<Rightarrow> 'r list" where
  "spec_slice start stop step xs =
     map (\<lambda>i. xs ! i)
       (filter (\<lambda>i. start \<le> i \<and> (i - start) mod step = 0) [0..<min stop (length xs)])"

datatype 'r retval = BandInfo "(string \<times> 'r list) list" | BaseValue "'r list"

text \<open>The base store's property \<open>iteration\<close>: the attribute of the group.\<close>

definition iteration :: "'r backend \<Rightarrow> error + nat" where
  "iteration b =
     (case contents b of
        None \<Rightarrow> Inl KeyError
      | Some g \<Rightarrow> get_attr (attrs g) ''iteration'')"

definition default_slice :: "int \<Rightarrow> int \<Rightarrow> nat \<Rightarrow> selection" where
  "default_slice thin discard iter = Slice (Some (discard + thin - 1)) (Some (int iter)) (Some thin)"

text \<open>
  Modelled from the spec: the base store's \<open>get_value\<close> is not under src/. The spec says
  \<open>get_value\<close> "fails with a not-initialized error if no reset has occurred or zero
  iterations have been committed"; otherwise the base array is returned, sliced.
\<close>

definition base_get_value ::
  "string \<Rightarrow> int \<Rightarrow> int \<Rightarrow> selection option \<Rightarrow> 'r backend \<Rightarrow> error + 'r retval" where
  "base_get_value name thin discard slice_vals b =
     (case contents b of
        None \<Rightarrow> Inl AttributeError
      | Some g \<Rightarrow>
          (case attrs g ''iteration'' of
             None \<Rightarrow> Inl KeyError
           | Some iter \<Rightarrow>
               if iter \<le> 0 then Inl AttributeError
               else (case getitem (case slice_vals of
                                     None \<Rightarrow> default_slice thin discard iter
                                   | Some sv \<Rightarrow> sv) (rows (base g)) of
                       Inl e \<Rightarrow> Inl e
                     | Inr v \<Rightarrow> Inr (BaseValue v))))"

definition get_value ::
  "string \<Rightarrow> int \<Rightarrow> int \<Rightarrow> selection option \<Rightarrow> 'r backend \<Rightarrow> error + 'r retval" where
  "get_value name thin discard slice_vals b =
     (if \<not> initialized b then Inl AttributeError
      else if name \<noteq> ''band_info'' then base_get_value name thin discard slice_vals b
      else (case (case slice_vals of
                    None \<Rightarrow> (case iteration b of
                               Inl e \<Rightarrow> Inl e
                             | Inr iter \<Rightarrow> Inr (default_slice thin discard iter))
                  | Some sv \<Rightarrow> Inr sv) of
              Inl e \<Rightarrow> Inl e
            | Inr sv \<Rightarrow>
                (case contents b of
                   None \<Rightarrow> Inl KeyError
                 | Some g \<Rightarrow>
                     (case attrs g ''iteration'' of
                        None \<Rightarrow> Inl KeyError
                      | Some iter \<Rightarrow>
                          if iter \<le> 0 then Inl AttributeError
                          else (case getitem_all sv (band_info g) of
                                  Inl e \<Rightarrow> Inl e
                                | Inr v_all \<Rightarrow> Inr (BandInfo v_all))))))"

definition get_band_info ::
  "int \<Rightarrow> int \<Rightarrow> selection option \<Rightarrow> 'r backend \<Rightarrow> error + 'r retval" where
  "get_band_info thin discard slice_vals b = get_value ''band_info'' thin discard slice_vals b"

text \<open>
  The sample \<open>get_a_sample\<close> returns: what the base store's \<open>get_a_sample\<close> gave, the
  dict of diagnostics arrays, and the flag \<open>band_info["initialized"]\<close>.
\<close>

record ('c, 'r) sample =
  sample_state :: "'c"
  sample_band_info :: "'r retval"
  sample_initialized :: bool

text \<open>
  The base store's \<open>get_a_sample\<close> is not under src/: \<open>get_a_sample\<close> takes it as the
  parameter \<open>super_get_a_sample\<close>.
\<close>

definition get_a_sample ::
  "(int \<Rightarrow> 'r backend \<Rightarrow> error + 'c) \<Rightarrow> int \<Rightarrow> 'r backend \<Rightarrow> error + ('c, 'r) sample" where
  "get_a_sample super_get_a_sample it b =
     (case super_get_a_sample it b of
        Inl e \<Rightarrow> Inl e
      | Inr s \<Rightarrow>
          (case iteration b of
             Inl e \<Rightarrow> Inl e
           | Inr iter \<Rightarrow>
               (let thin = (if it \<noteq> int iter then int iter - it else 1)
                in (case get_band_info thin (it - 1) None b of
                      Inl e \<Rightarrow> Inl e
                    | Inr v \<Rightarrow>
                        Inr \<lparr>sample_state = s, sample_band_info = v,
                             sample_initialized = True\<rparr>))))"

section \<open>Seeding a stage from the previous stage (src/lisatools/pipeline/pipeline.py)\<close>

text \<open>
  \<open>np.unique(a, return_index=True)\<close>: the distinct values of \<open>a\<close> in ascending order,
  and for each the index of its first occurrence in \<open>a\<close>.
\<close>

definition first_index :: "'a list \<Rightarrow> 'a \<Rightarrow> nat" where
  "first_index a v = length (takeWhile (\<lambda>x. x \<noteq> v) a)"

definition unique_return_index :: "'a::linorder list \<Rightarrow> 'a list \<times> nat list" where
  "unique_return_index a = (let uni = sort (remdups a) in (uni, map (first_index a) uni))"

text \<open>The slice \<open>xs[-n:]\<close> for \<open>n \<ge> 0\<close>; \<open>xs[-0:]\<close> is all of \<open>xs\<close>.\<close>

definition last_n :: "nat \<Rightarrow> 'a list \<Rightarrow> 'a list" where
  "last_n n xs = (if n = 0 then xs else drop (length xs - n) xs)"

text \<open>
  What \<open>np.argsort\<close> promises of its result: a permutation of the indices that puts the
  values in ascending order. Which of two equal values comes first is the sorting
  algorithm's choice, so the result is a parameter of \<open>select_start_inds\<close>.
\<close>

definition is_argsort :: "nat list \<Rightarrow> 'a::linorder list \<Rightarrow> bool" where
  "is_argsort p xs = (sort p = [0..<length xs] \<and> sorted (map (\<lambda>i. xs ! i) p))"

text \<open>
  The lines of \<open>MBHBase.update_module\<close> and \<open>MBHRelBinSearch.update_module\<close> that choose
  the starting indices, with \<open>argsort_out\<close> for \<open>np.argsort(log_prob)\<close>.
\<close>

definition select_start_inds :: "nat list \<Rightarrow> 'a::linorder list \<Rightarrow> nat \<Rightarrow> nat \<Rightarrow> nat list" where
  "select_start_inds argsort_out log_prob ntemps nwalkers =
     (let start_inds = argsort_out;
          (uni, inds) = unique_return_index (map (\<lambda>i. log_prob ! i) start_inds)
      in map (\<lambda>j. start_inds ! j) (last_n (ntemps * nwalkers) inds))"

section \<open>The residual container's input check (src/lisatools/datacontainer.py)\<close>

definition check_inputs :: "'a option \<Rightarrow> 'b option \<Rightarrow> 'c option \<Rightarrow> error option" where
  "check_inputs dt f_arr df =
     (let number_of_none =
            (if dt = None then 1 else 0) + (if f_arr = None then 1 else 0)
              + (if df = None then (1::nat) else 0)
      in if number_of_none = 3 then Some ValueError
         else if number_of_none = 1 then Some ValueError
         else None)"

section \<open>Example data\<close>

text \<open>
  A sampler state with two diagnostics arrays, the band edges and a flag, and the
  backend after \<open>reset(nwalkers=4, ntemps=2, num_bands=3, band_edges=[0,1,2,3])\<close>
  with compression on and \<open>grow(4)\<close>: \<open>demo_store it cs ts ns\<close> has \<open>it\<close> committed
  iterations and the entries \<open>cs\<close>, \<open>ts\<close> and \<open>ns\<close> in the base arrays, in
  \<open>band_temps\<close> and in \<open>band_num_binaries\<close>; \<open>demo_backend\<close> is the backend after
  three calls of \<open>save_step\<close>.
\<close>

definition demo_state :: "int \<Rightarrow> int \<Rightarrow> int \<Rightarrow> int state" where
  "demo_state c t n =
     \<lparr>coords = c,
      state_band_info =
        [(''band_temps'', NdArray t), (''band_edges'', NdArray 99),
         (''band_num_binaries'', NdArray n), (''initialized'', NotArray)]\<rparr>"

definition demo_dataset :: "int list \<Rightarrow> int list \<Rightarrow> int dataset" where
  "demo_dataset shape xs = \<lparr>rows = xs, rowshape = shape, chunked = True, maxlen = None\<rparr>"

definition demo_store :: "nat \<Rightarrow> int list \<Rightarrow> int list \<Rightarrow> int list \<Rightarrow> int backend" where
  "demo_store it cs ts ns =
     \<lparr>compression = True,
      contents = Some
        \<lparr>attrs = [''iteration'' \<mapsto> it],
         base = demo_dataset [2, 4] cs,
         band_attrs = [''num_bands'' \<mapsto> 4],
         band_info =
           [(''band_edges'',
               \<lparr>rows = [0, 1, 2, 3], rowshape = [], chunked = True, maxlen = Some 4\<rparr>),
            (''band_temps'', demo_dataset [3, 2] ts),
            (''band_swaps_proposed'', demo_dataset [3, 1] [0, 0, 0, 0]),
            (''band_swaps_accepted'', demo_dataset [3, 1] [0, 0, 0, 0]),
            (''band_num_proposed'', demo_dataset [3, 2] [0, 0, 0, 0]),
            (''band_num_accepted'', demo_dataset [3, 2] [0, 0, 0, 0]),
            (''band_num_proposed_rj'', demo_dataset [3, 2] [0, 0, 0, 0]),
            (''band_num_accepted_rj'', demo_dataset [3, 2] [0, 0, 0, 0]),
            (''band_num_binaries'', demo_dataset [2, 4, 3] ns)]\<rparr>\<rparr>"

definition demo_backend :: "int backend" where
  "demo_backend = demo_store 3 [41, 42, 43, 0] [11, 12, 13, 0] [21, 22, 23, 0]"

section \<open>Theorems\<close>

subsection \<open>The example backend is reachable\<close>

lemmas model_defs = reset_def base_reset_def grow_def base_grow_def resize_def
  create_growable_def create_from_data_def save_step_def base_save_step_def write_row_def
  num_bands_def get_attr_def reset_band_counters_def demo_state_def demo_dataset_def

lemma demo_store_grown:
  "grow 4 (snd (reset 4 2 (Some 3) (Some [0, 1, 2, 3])
      \<lparr>compression = True, contents = None\<rparr>))
   = (None, demo_store 0 [0, 0, 0, 0] [0, 0, 0, 0] [0, 0, 0, 0])"
  by (simp add: model_defs demo_store_def Let_def eval_nat_numeral)

lemma demo_backend_reached:
  "fst (snd (save_step (demo_state 43 13 23)
     (fst (snd (save_step (demo_state 42 12 22)
        (fst (snd (save_step (demo_state 41 11 21)
           (demo_store 0 [0, 0, 0, 0] [0, 0, 0, 0] [0, 0, 0, 0])))))))))
   = demo_backend"
  by (simp add: model_defs demo_backend_def demo_store_def Let_def eval_nat_numeral)

subsection \<open>reset and the properties read back\<close>

text \<open>
  C5. A call of \<open>reset\<close> without \<open>num_bands\<close> or without \<open>band_edges\<close> raises the
  configuration error (ValueError) and leaves the backend as it was: the check stands
  before the base reset and before every write.
\<close>

theorem reset_missing_argument:
  assumes "nb = None \<or> be = None"
  shows "reset nwalkers ntemps nb be b = (Some ValueError, b)"
  using assms by (auto simp: reset_def split: option.splits)

theorem reset_missing_argument_witness:
  "reset 4 2 None (Some [0, 1, 2, 3 :: int]) \<lparr>compression = False, contents = None\<rparr>
     = (Some ValueError, \<lparr>compression = False, contents = None\<rparr>)"
  using reset_missing_argument [of None "Some [0, 1, 2, 3 :: int]" 4 2
      "\<lparr>compression = False, contents = None\<rparr>"]
  by simp

lemma reset_num_bands:
  "num_bands (snd (reset nw nt (Some nb) (Some be) b)) = Inr (length be)"
  by (simp add: reset_def num_bands_def get_attr_def Let_def)

lemma reset_band_edges:
  "band_edges (snd (reset nw nt (Some nb) (Some be) b)) = Inl KeyError"
  by (simp add: reset_def band_edges_def get_attr_def base_reset_def Let_def)

text \<open>
  C2. The claim says that after \<open>reset\<close> the properties \<open>num_bands\<close> and \<open>band_edges\<close>
  give back the arguments of \<open>reset\<close>, and 3 after
  \<open>reset(nwalkers=4, ntemps=2, num_bands=3, band_edges=[0,1,2,3])\<close>. Evaluated there,
  the code gives 4 for \<open>num_bands\<close> (\<open>reset\<close> stores \<open>len(band_edges)\<close>), and
  \<open>band_edges\<close> raises KeyError (it reads the attribute \<open>num_bands\<close> of the group,
  which \<open>reset\<close> never writes, and never the dataset of the edges).
\<close>

theorem properties_after_reset_evaluated:
  "num_bands (snd (reset 4 2 (Some 3) (Some [0, 1, 2, 3 :: int])
       \<lparr>compression = False, contents = None\<rparr>)) = Inr 4
   \<and> band_edges (snd (reset 4 2 (Some 3) (Some [0, 1, 2, 3 :: int])
       \<lparr>compression = False, contents = None\<rparr>)) = Inl KeyError"
  by (simp add: reset_num_bands reset_band_edges)

subsection \<open>grow\<close>

lemma resize_length: "resize n d = Inr d' \<Longrightarrow> length (rows d') = n"
  by (auto simp: resize_def split: if_splits)

lemma resize_all_keys: "resize_all n ds = (r, ds') \<Longrightarrow> map fst ds' = map fst ds"
  by (induction ds arbitrary: r ds') (auto split: sum.splits prod.splits)

lemma resize_all_lengths:
  "resize_all n ds = (None, ds') \<Longrightarrow> list_all (\<lambda>(key, d). length (rows d) = n) ds'"
  by (induction ds arbitrary: ds') (auto split: sum.splits prod.splits simp: resize_length)

text \<open>
  On the backend that \<open>reset\<close> leaves, \<open>grow(n)\<close> returns normally only with
  compression on and \<open>n\<close> within the number of band edges: the loop resizes
  \<open>band_edges\<close>, the one dataset \<open>reset\<close> creates without a maxshape.
\<close>

lemma grow_after_reset_returns_iff:
  "fst (grow n (snd (reset nw nt (Some nb) (Some be) b))) = None
     \<longleftrightarrow> compression b \<and> n \<le> length be"
  by (auto simp: model_defs Let_def)

lemma grow_after_default_reset:
  assumes "\<not> compression b"
  shows "fst (grow n (snd (reset nw nt (Some nb) (Some be) b))) = Some TypeError
         \<and> (\<exists>g. contents (snd (grow n (snd (reset nw nt (Some nb) (Some be) b)))) = Some g
               \<and> length (rows (base g)) = n
               \<and> map (\<lambda>(key, d). length (rows d)) (band_info g)
                   = [length be, 0, 0, 0, 0, 0, 0, 0, 0])"
  using assms by (simp add: model_defs Let_def)

text \<open>
  The eight datasets that \<open>reset\<close> creates with \<open>maxshape=(None, ...)\<close> take every
  length: resized without \<open>band_edges\<close>, the group would be in step with the base
  arrays for every \<open>n\<close>.
\<close>

lemma resize_all_without_band_edges:
  "fst (resize_all n (filter (\<lambda>(key, d). key \<noteq> ''band_edges'')
          (band_info (the (contents (snd (reset nw nt (Some nb) (Some be) b))))))) = None
   \<and> list_all (\<lambda>(key, d). length (rows d) = n)
        (snd (resize_all n (filter (\<lambda>(key, d). key \<noteq> ''band_edges'')
          (band_info (the (contents (snd (reset nw nt (Some nb) (Some be) b))))))))"
  by (simp add: model_defs Let_def)

text \<open>
  C1. The claim says that after every valid \<open>reset\<close> a call \<open>grow(n)\<close> leaves every
  array of the diagnostics group at the length of the base arrays, and that a failed
  \<open>grow\<close> leaves no partial resize. Evaluated after
  \<open>reset(nwalkers=4, ntemps=2, num_bands=3, band_edges=[0,1,2,3])\<close> on a backend
  without compression, \<open>grow(5)\<close> raises a TypeError at \<open>band_edges\<close>; the base arrays
  have five entries by then, the growable diagnostics datasets none.
\<close>

theorem grow_after_default_reset_evaluated:
  "fst (grow 5 (snd (reset 4 2 (Some 3) (Some [0, 1, 2, 3 :: int])
        \<lparr>compression = False, contents = None\<rparr>))) = Some TypeError
   \<and> (case contents (snd (grow 5 (snd (reset 4 2 (Some 3) (Some [0, 1, 2, 3 :: int])
        \<lparr>compression = False, contents = None\<rparr>)))) of
        None \<Rightarrow> False
      | Some g \<Rightarrow> length (rows (base g)) = 5
          \<and> map (\<lambda>(key, d). length (rows d)) (band_info g) = [4, 0, 0, 0, 0, 0, 0, 0, 0])"
  by (simp add: model_defs Let_def)

subsection \<open>save_step\<close>

lemma map_of_put:
  "map_of (put name d ds) = (if name \<in> fst ` set ds then (map_of ds)(name \<mapsto> d) else map_of ds)"
  by (induction ds) (force simp: fun_eq_iff)+

lemma row_frame_refl: "row_frame i x x"
  by (cases x) (simp add: row_frame_def)

lemma row_frame_trans: "row_frame i x y \<Longrightarrow> row_frame i y z \<Longrightarrow> row_frame i x z"
  by (cases x; cases y; cases z) (auto simp: row_frame_def)

lemma list_all2_row_frame_refl: "list_all2 (row_frame i) ds ds"
  by (simp add: list_all2_refl row_frame_refl)

lemma put_row_frame:
  assumes "map_of ds name = Some d" and "write_row i dat d = Inr d'"
  shows "list_all2 (row_frame i) ds (put name d' ds)"
  using assms
proof (induction ds)
  case Nil
  then show ?case by simp
next
  case (Cons kd ds)
  obtain k d0 where kd: "kd = (k, d0)" by (cases kd)
  show ?case
  proof (cases "k = name")
    case True
    with Cons.prems kd have "d0 = d" by simp
    with Cons.prems(2) have "row_frame i (name, d0) (name, d')"
      by (auto simp: write_row_def row_frame_def split: if_splits)
    with True kd show ?thesis
      by (simp add: list_all2_row_frame_refl)
  next
    case False
    with Cons kd show ?thesis by (simp add: row_frame_def)
  qed
qed

lemma write_band_info_frame:
  "write_band_info i items ds = (r, ds') \<Longrightarrow> list_all2 (row_frame i) ds ds'"
proof (induction i items ds arbitrary: r ds' rule: write_band_info.induct)
  case (1 i ds)
  then show ?case by (simp add: list_all2_row_frame_refl)
next
  case (2 i name items ds)
  then show ?case by simp
next
  case (3 i name dat items ds)
  show ?case
  proof (cases "name = ''band_edges''")
    case True
    with 3 show ?thesis by simp
  next
    case False
    show ?thesis
    proof (cases "map_of ds name")
      case None
      with False "3.prems" show ?thesis by (simp add: list_all2_row_frame_refl)
    next
      case (Some d)
      show ?thesis
      proof (cases "write_row i dat d")
        case (Inl e)
        with False Some "3.prems" show ?thesis by (simp add: list_all2_row_frame_refl)
      next
        case (Inr d')
        with False Some "3.prems" have "write_band_info i items (put name d' ds) = (r, ds')"
          by simp
        from "3.IH"(2)[OF False Some Inr this]
        have "list_all2 (row_frame i) (put name d' ds) ds'" .
        with put_row_frame[OF Some Inr] show ?thesis
          by (rule list_all2_trans[rotated 1]) (rule row_frame_trans)
      qed
    qed
  qed
qed

lemma write_band_info_other:
  "write_band_info i items ds = (r, ds') \<Longrightarrow> name \<notin> fst ` set items
     \<Longrightarrow> map_of ds' name = map_of ds name"
proof (induction i items ds arbitrary: r ds' rule: write_band_info.induct)
  case (1 i ds)
  then show ?case by simp
next
  case (2 i name' items ds)
  then show ?case by simp
next
  case (3 i name' dat items ds)
  then show ?case
    by (auto simp: map_of_put split: if_splits option.splits sum.splits)
qed

lemma write_band_info_written:
  "write_band_info i items ds = (None, ds') \<Longrightarrow> distinct (map fst items)
     \<Longrightarrow> (name, NdArray dat) \<in> set items \<Longrightarrow> name \<noteq> ''band_edges''
     \<Longrightarrow> \<exists>d'. map_of ds' name = Some d' \<and> i < length (rows d') \<and> rows d' ! i = dat"
proof (induction i items ds arbitrary: ds' rule: write_band_info.induct)
  case (1 i ds)
  then show ?case by simp
next
  case (2 i name' items ds)
  then show ?case by auto
next
  case (3 i name' dat' items ds)
  show ?case
  proof (cases "(name, NdArray dat) = (name', NdArray dat')")
    case True
    then have eq: "name' = name" "dat' = dat" by auto
    from "3.prems"(1,4) eq obtain d d' where d: "map_of ds name = Some d"
      and w: "write_row i dat d = Inr d'"
      and rest: "write_band_info i items (put name d' ds) = (None, ds')"
      by (auto split: option.splits sum.splits)
    from "3.prems"(2) eq have "name \<notin> fst ` set items" by auto
    from write_band_info_other[OF rest this] d
    have "map_of ds' name = Some d'"
      by (auto simp: map_of_put dest: map_of_SomeD intro: rev_image_eqI)
    moreover from w have "i < length (rows d') \<and> rows d' ! i = dat"
      by (auto simp: write_row_def split: if_splits)
    ultimately show ?thesis by blast
  next
    case False
    with "3.prems"(3) have mem: "(name, NdArray dat) \<in> set items" by auto
    from "3.prems"(2) have dist: "distinct (map fst items)" by simp
    show ?thesis
    proof (cases "name' = ''band_edges''")
      case True
      with "3.prems"(1) have "write_band_info i items ds = (None, ds')" by simp
      from "3.IH"(1)[OF True this dist mem "3.prems"(4)] show ?thesis .
    next
      case ne: False
      from "3.prems"(1) ne obtain d d' where d: "map_of ds name' = Some d"
        and w: "write_row i dat' d = Inr d'"
        and rest: "write_band_info i items (put name' d' ds) = (None, ds')"
        by (auto split: option.splits sum.splits)
      from "3.IH"(2)[OF ne d w rest dist mem "3.prems"(4)] show ?thesis .
    qed
  qed
qed

lemma save_step_success:
  assumes "save_step s b = (None, b', s')"
  obtains g it d ds' where "contents b = Some g" and "attrs g ''iteration'' = Some it"
    and "write_row it (coords s) (base g) = Inr d"
    and "write_band_info it (state_band_info s) (band_info g) = (None, ds')"
    and "b' = b\<lparr>contents := Some \<lparr>attrs = (attrs g)(''iteration'' \<mapsto> it + 1), base = d,
                 band_attrs = band_attrs g, band_info = ds'\<rparr>\<rparr>"
    and "s' = reset_band_counters s"
  using assms
  by (auto simp: save_step_def base_save_step_def num_bands_def get_attr_def
      split: option.splits sum.splits prod.splits)

lemma reset_band_counters_entries:
  "(name, NdArray dat) \<in> set (state_band_info (reset_band_counters s)) \<Longrightarrow>
     name \<noteq> ''band_edges'' \<Longrightarrow> dat = 0"
  by (auto simp: reset_band_counters_def split: entry.splits if_splits)

lemma reset_band_counters_keys:
  "map fst (state_band_info (reset_band_counters s)) = map fst (state_band_info s)"
  by (auto simp: reset_band_counters_def split: entry.splits)

lemma reset_band_counters_mem:
  "(name, NdArray dat) \<in> set (state_band_info s) \<Longrightarrow> name \<noteq> ''band_edges'' \<Longrightarrow>
     (name, NdArray 0) \<in> set (state_band_info (reset_band_counters s))"
  by (force simp: reset_band_counters_def)

lemma row_frame_map_of:
  "list_all2 (row_frame i) ds ds' \<Longrightarrow> map_of ds name = Some d \<Longrightarrow>
     \<exists>d'. map_of ds' name = Some d' \<and> length (rows d') = length (rows d)
        \<and> (\<forall>j. j \<noteq> i \<longrightarrow> rows d' ! j = rows d ! j)"
  by (induction ds ds' rule: list_all2_induct) (auto simp: row_frame_def split: if_splits)

text \<open>
  C3. For every call of \<open>save_step\<close> that returns, on a state whose dict has distinct
  names: the iteration counter goes from \<open>it\<close> to \<open>it + 1\<close>; every array of
  \<open>state.band_info\<close> (but \<open>band_edges\<close>) stands in its dataset at the committed index
  \<open>it\<close>, the counter after the commit minus one; every dataset of the group keeps its
  length and all its other entries (\<open>row_frame\<close>); the state comes back with these
  arrays set to zero; and a second call with that state, where it returns, writes zero
  at index \<open>it + 1\<close> and leaves the entry at \<open>it\<close> as it was written.
\<close>

theorem save_step_commits_one_row:
  assumes "save_step s b = (None, b', s')"
    and "distinct (map fst (state_band_info s))"
  shows "\<exists>g g' it.
      contents b = Some g \<and> attrs g ''iteration'' = Some it \<and>
      contents b' = Some g' \<and> attrs g' ''iteration'' = Some (it + 1) \<and>
      (\<forall>name dat. (name, NdArray dat) \<in> set (state_band_info s) \<and> name \<noteq> ''band_edges'' \<longrightarrow>
         (\<exists>d'. map_of (band_info g') name = Some d' \<and> it < length (rows d') \<and> rows d' ! it = dat)) \<and>
      list_all2 (row_frame it) (band_info g) (band_info g') \<and>
      s' = reset_band_counters s \<and>
      (\<forall>name dat. (name, NdArray dat) \<in> set (state_band_info s') \<and> name \<noteq> ''band_edges'' \<longrightarrow> dat = 0) \<and>
      (\<forall>b'' s''. save_step s' b' = (None, b'', s'') \<longrightarrow>
         (\<exists>g''. contents b'' = Some g'' \<and> attrs g'' ''iteration'' = Some (it + 2) \<and>
            (\<forall>name dat. (name, NdArray dat) \<in> set (state_band_info s) \<and> name \<noteq> ''band_edges'' \<longrightarrow>
               (\<exists>d''. map_of (band_info g'') name = Some d'' \<and> rows d'' ! (it + 1) = 0
                   \<and> rows d'' ! it = dat))))"
proof -
  from assms(1) obtain g it d ds' where g: "contents b = Some g"
    and it: "attrs g ''iteration'' = Some it"
    and loop: "write_band_info it (state_band_info s) (band_info g) = (None, ds')"
    and b': "b' = b\<lparr>contents := Some \<lparr>attrs = (attrs g)(''iteration'' \<mapsto> it + 1), base = d,
                 band_attrs = band_attrs g, band_info = ds'\<rparr>\<rparr>"
    and s': "s' = reset_band_counters s"
    by (rule save_step_success)
  let ?g' = "\<lparr>attrs = (attrs g)(''iteration'' \<mapsto> it + 1), base = d,
                 band_attrs = band_attrs g, band_info = ds'\<rparr>"
  have written: "\<exists>d'. map_of ds' name = Some d' \<and> it < length (rows d') \<and> rows d' ! it = dat"
    if "(name, NdArray dat) \<in> set (state_band_info s)" "name \<noteq> ''band_edges''" for name dat
    using write_band_info_written[OF loop assms(2) that] .
  have frame: "list_all2 (row_frame it) (band_info g) ds'"
    using write_band_info_frame[OF loop] .
  have zero: "dat = 0"
    if "(name, NdArray dat) \<in> set (state_band_info s')" "name \<noteq> ''band_edges''" for name dat
    using that reset_band_counters_entries unfolding s' by blast
  have second: "\<exists>g''. contents b'' = Some g'' \<and> attrs g'' ''iteration'' = Some (it + 2) \<and>
            (\<forall>name dat. (name, NdArray dat) \<in> set (state_band_info s) \<and> name \<noteq> ''band_edges'' \<longrightarrow>
               (\<exists>d''. map_of (band_info g'') name = Some d'' \<and> rows d'' ! (it + 1) = 0
                   \<and> rows d'' ! it = dat))"
    if again: "save_step s' b' = (None, b'', s'')" for b'' s''
  proof -
    from again obtain g1 it1 d1 ds'' where g1: "contents b' = Some g1"
      and it1: "attrs g1 ''iteration'' = Some it1"
      and loop2: "write_band_info it1 (state_band_info s') (band_info g1) = (None, ds'')"
      and b'': "b'' = b'\<lparr>contents := Some \<lparr>attrs = (attrs g1)(''iteration'' \<mapsto> it1 + 1), base = d1,
                 band_attrs = band_attrs g1, band_info = ds''\<rparr>\<rparr>"
      by (rule save_step_success)
    from g1 b' have g1_eq: "g1 = ?g'" by simp
    with it1 have it1_eq: "it1 = it + 1" by simp
    from loop2 g1_eq it1_eq
    have loop2': "write_band_info (it + 1) (state_band_info s') ds' = (None, ds'')" by simp
    have dist': "distinct (map fst (state_band_info s'))"
      using assms(2) by (simp add: s' reset_band_counters_keys)
    have "\<exists>d''. map_of ds'' name = Some d'' \<and> rows d'' ! (it + 1) = 0 \<and> rows d'' ! it = dat"
      if mem: "(name, NdArray dat) \<in> set (state_band_info s)" and ne: "name \<noteq> ''band_edges''"
      for name dat
    proof -
      from written[OF mem ne] obtain d' where d': "map_of ds' name = Some d'"
        "rows d' ! it = dat" by blast
      have "(name, NdArray 0) \<in> set (state_band_info s')"
        using reset_band_counters_mem[OF mem ne] by (simp add: s')
      from write_band_info_written[OF loop2' dist' this ne]
      obtain d'' where d'': "map_of ds'' name = Some d''" "rows d'' ! (it + 1) = 0" by blast
      from row_frame_map_of[OF write_band_info_frame[OF loop2'] d'(1)] d''(1)
      have "rows d'' ! it = rows d' ! it" by auto
      with d' d'' show ?thesis by simp
    qed
    then show ?thesis
      by (intro exI[of _ "\<lparr>attrs = (attrs g1)(''iteration'' \<mapsto> it1 + 1), base = d1,
                 band_attrs = band_attrs g1, band_info = ds''\<rparr>"])
         (simp add: b'' it1_eq)
  qed
  show ?thesis
    apply (rule exI[of _ g], rule exI[of _ ?g'], rule exI[of _ it], intro conjI)
    subgoal by (rule g)
    subgoal by (rule it)
    subgoal by (simp add: b')
    subgoal by simp
    subgoal using written by auto
    subgoal using frame by simp
    subgoal by (rule s')
    subgoal using zero by blast
    subgoal using second by blast
    done
qed


theorem save_step_commits_one_row_witness:
  "save_step (demo_state 41 11 21) (demo_store 0 [0, 0, 0, 0] [0, 0, 0, 0] [0, 0, 0, 0])
     = (None, demo_store 1 [41, 0, 0, 0] [11, 0, 0, 0] [21, 0, 0, 0], demo_state 41 0 0)
   \<and> distinct (map fst (state_band_info (demo_state 41 11 21)))
   \<and> save_step (demo_state 41 0 0) (demo_store 1 [41, 0, 0, 0] [11, 0, 0, 0] [21, 0, 0, 0])
     = (None, demo_store 2 [41, 41, 0, 0] [11, 0, 0, 0] [21, 0, 0, 0], demo_state 41 0 0)"
  using save_step_commits_one_row [of "demo_state 41 11 21"
      "demo_store 0 [0, 0, 0, 0] [0, 0, 0, 0] [0, 0, 0, 0]"
      "demo_store 1 [41, 0, 0, 0] [11, 0, 0, 0] [21, 0, 0, 0]" "demo_state 41 0 0"]
  by (simp add: model_defs demo_store_def Let_def eval_nat_numeral)

subsection \<open>Reading\<close>

text \<open>
  C6. On a backend that was never reset (the file holds no group), and on one whose
  iteration counter is zero, every call of \<open>get_value\<close> and of \<open>get_band_info\<close> raises
  the not-initialized error (AttributeError) and returns nothing, whatever the name,
  \<open>thin\<close>, \<open>discard\<close> and \<open>slice_vals\<close>.
\<close>

theorem get_value_not_initialized:
  assumes "contents b = None \<or> (\<exists>g. contents b = Some g \<and> attrs g ''iteration'' = Some 0)"
  shows "get_value name thin discard slice_vals b = Inl AttributeError
         \<and> get_band_info thin discard slice_vals b = Inl AttributeError"
  using assms
  by (auto simp: get_value_def get_band_info_def initialized_def base_get_value_def
      iteration_def get_attr_def split: option.splits sum.splits)

theorem get_value_not_initialized_witness:
  "get_value ''band_info'' 1 0 None (\<lparr>compression = False, contents = None\<rparr> :: int backend)
      = Inl AttributeError
   \<and> get_band_info 1 0 None (\<lparr>compression = False, contents = None\<rparr> :: int backend)
      = Inl AttributeError
   \<and> attrs (the (contents (snd (reset 4 2 (Some 3) (Some [0, 1, 2, 3 :: int])
        \<lparr>compression = False, contents = None\<rparr>)))) ''iteration'' = Some 0
   \<and> get_value ''band_info'' 1 0 None (snd (reset 4 2 (Some 3) (Some [0, 1, 2, 3 :: int])
        \<lparr>compression = False, contents = None\<rparr>)) = Inl AttributeError
   \<and> get_value ''log_like'' 1 0 None (snd (reset 4 2 (Some 3) (Some [0, 1, 2, 3 :: int])
        \<lparr>compression = False, contents = None\<rparr>)) = Inl AttributeError"
  using get_value_not_initialized [of "\<lparr>compression = False, contents = None\<rparr> :: int backend"
      "''band_info''" 1 0 None]
    get_value_not_initialized [of "snd (reset 4 2 (Some 3) (Some [0, 1, 2, 3 :: int])
        \<lparr>compression = False, contents = None\<rparr>)" "''band_info''" 1 0 None]
    get_value_not_initialized [of "snd (reset 4 2 (Some 3) (Some [0, 1, 2, 3 :: int])
        \<lparr>compression = False, contents = None\<rparr>)" "''log_like''" 1 0 None]
  by (simp add: reset_def base_reset_def Let_def)

subsection \<open>Slices\<close>

lemma count_bound:
  fixes k m step :: nat
  assumes "1 \<le> step"
  shows "(k < (m + step - 1) div step) = (k * step < m)"
proof -
  have "(k < (m + step - 1) div step) = (Suc k \<le> (m + step - 1) div step)"
    by auto
  also have "\<dots> = (Suc k * step \<le> m + step - 1)"
    using assms by (simp add: less_eq_div_iff_mult_less_eq)
  also have "\<dots> = (k * step < m)"
    using assms by auto
  finally show ?thesis .
qed

lemma slice_indices_set:
  assumes "1 \<le> step"
  shows "set (slice_indices lo hi step) = {i. lo \<le> i \<and> i < hi \<and> (i - lo) mod step = 0}"
proof (intro set_eqI iffI)
  fix x assume "x \<in> set (slice_indices lo hi step)"
  then obtain k where k: "k < (hi - lo + step - 1) div step" "x = lo + k * step"
    by (auto simp: slice_indices_def)
  from k(1) have "k * step < hi - lo" using count_bound[OF assms, of k "hi - lo"] by blast
  with k(2) show "x \<in> {i. lo \<le> i \<and> i < hi \<and> (i - lo) mod step = 0}" by auto
next
  fix x assume "x \<in> {i. lo \<le> i \<and> i < hi \<and> (i - lo) mod step = 0}"
  then have x: "lo \<le> x" "x < hi" "step dvd (x - lo)" by auto
  then obtain k where k: "x - lo = step * k" by (auto simp: dvd_def)
  with x have "k * step < hi - lo" by (simp add: mult.commute) 
  then have "k < (hi - lo + step - 1) div step" using count_bound[OF assms, of k "hi - lo"] by blast
  moreover have "x = lo + k * step" using k x by (simp add: mult.commute)
  ultimately show "x \<in> set (slice_indices lo hi step)"
    by (auto simp: slice_indices_def)
qed

lemma slice_indices_filter:
  assumes "1 \<le> step"
  shows "slice_indices lo hi step = filter (\<lambda>i. lo \<le> i \<and> (i - lo) mod step = 0) [0..<hi]"
proof (rule sorted_distinct_set_unique)
  show "sorted (slice_indices lo hi step)"
    unfolding slice_indices_def using assms
    by (auto simp: sorted_map intro!: sorted_wrt_mono_rel[of _ "(<)"] )
  show "distinct (slice_indices lo hi step)"
    unfolding slice_indices_def using assms
    by (auto simp: distinct_map intro!: inj_onI)
  show "sorted (filter (\<lambda>i. lo \<le> i \<and> (i - lo) mod step = 0) [0..<hi])"
    by (simp add: sorted_wrt_filter)
  show "distinct (filter (\<lambda>i. lo \<le> i \<and> (i - lo) mod step = 0) [0..<hi])"
    by simp
  show "set (slice_indices lo hi step) = set (filter (\<lambda>i. lo \<le> i \<and> (i - lo) mod step = 0) [0..<hi])"
    using slice_indices_set[OF assms] by auto
qed

lemma getitem_default_slice:
  assumes "1 \<le> t" and "0 \<le> d"
  shows "getitem (default_slice t d iter) xs = Inr (spec_slice (nat (d + t - 1)) iter (nat t) xs)"
proof -
  let ?n = "length xs"
  let ?s = "nat (d + t - 1)"
  have step: "1 \<le> nat t" using assms by simp
  have lo: "clamp_index ?n (d + t - 1) = min ?s ?n"
    using assms by (simp add: clamp_index_def)
  have hi: "clamp_index ?n (int iter) = min iter ?n"
    by (simp add: clamp_index_def)
  have "slice_indices (min ?s ?n) (min iter ?n) (nat t)
        = filter (\<lambda>i. ?s \<le> i \<and> (i - ?s) mod nat t = 0) [0..<min iter ?n]"
  proof (cases "?s \<le> ?n")
    case True
    then show ?thesis using slice_indices_filter[OF step] by (simp add: min_def)
  next
    case False
    then have "slice_indices (min ?s ?n) (min iter ?n) (nat t) = []"
      using step by (auto simp: slice_indices_def min_def)
    moreover have "filter (\<lambda>i. ?s \<le> i \<and> (i - ?s) mod nat t = 0) [0..<min iter ?n] = []"
      using False by (auto simp: filter_empty_conv)
    ultimately show ?thesis by simp
  qed
  then show ?thesis
    using assms by (simp add: default_slice_def spec_slice_def lo hi Let_def)
qed

lemma getitem_all_default_slice:
  assumes "1 \<le> t" and "0 \<le> d"
  shows "getitem_all (default_slice t d iter) ds =
           Inr (map (\<lambda>(key, d0). (key, spec_slice (nat (d + t - 1)) iter (nat t) (rows d0))) ds)"
proof (induction ds)
  case Nil
  show ?case by simp
next
  case (Cons kd ds)
  obtain key d0 where kd: "kd = (key, d0)" by (cases kd)
  show ?case
    unfolding kd using Cons.IH
    by (simp add: getitem_default_slice[OF assms] del: getitem.simps)
qed

text \<open>
  C4. On an initialized backend with at least one committed iteration, for \<open>thin = t \<ge> 1\<close>
  and \<open>discard = d \<ge> 0\<close>, \<open>get_value("band_info", thin=t, discard=d)\<close> returns for
  every dataset of the diagnostics group the slice \<open>[d+t-1 : iteration : t]\<close> of its
  entries; and with an explicit \<open>slice_vals\<close> the result is that selection of every
  dataset, whatever \<open>thin\<close> and \<open>discard\<close> are.
\<close>

theorem get_value_band_info_thinning:
  assumes "contents b = Some g" and "attrs g ''iteration'' = Some iter" and "0 < iter"
    and "1 \<le> t" and "0 \<le> d"
  shows "get_value ''band_info'' t d None b =
           Inr (BandInfo (map (\<lambda>(key, ds). (key, spec_slice (nat (d + t - 1)) iter (nat t) (rows ds)))
                    (band_info g)))
         \<and> (\<forall>thin discard.
               get_value ''band_info'' thin discard (Some sv) b =
                 (case getitem_all sv (band_info g) of
                    Inl e \<Rightarrow> Inl e
                  | Inr v_all \<Rightarrow> Inr (BandInfo v_all)))"
proof
  show "get_value ''band_info'' t d None b =
           Inr (BandInfo (map (\<lambda>(key, ds). (key, spec_slice (nat (d + t - 1)) iter (nat t) (rows ds)))
                    (band_info g)))"
    using assms(1-3)
    by (simp add: get_value_def initialized_def iteration_def get_attr_def
        getitem_all_default_slice[OF assms(4,5)])
  show "\<forall>thin discard.
               get_value ''band_info'' thin discard (Some sv) b =
                 (case getitem_all sv (band_info g) of
                    Inl e \<Rightarrow> Inl e
                  | Inr v_all \<Rightarrow> Inr (BandInfo v_all))"
    using assms(1-3)
    by (simp add: get_value_def initialized_def)
qed

theorem get_value_band_info_thinning_witness:
  "map_of (case get_value ''band_info'' 2 0 None demo_backend of
             Inr (BandInfo v_all) \<Rightarrow> v_all | _ \<Rightarrow> []) ''band_temps'' = Some [12]
   \<and> map_of (case get_value ''band_info'' 1 1 None demo_backend of
             Inr (BandInfo v_all) \<Rightarrow> v_all | _ \<Rightarrow> []) ''band_num_binaries'' = Some [22, 23]
   \<and> get_value ''band_info'' 7 5 (Some (Slice (Some 0) None (Some 3))) demo_backend
       = get_value ''band_info'' 1 0 (Some (Slice (Some 0) None (Some 3))) demo_backend"
  using get_value_band_info_thinning [of demo_backend "the (contents demo_backend)" 3 2 0
      "Slice (Some 0) None (Some 3)"]
    get_value_band_info_thinning [of demo_backend "the (contents demo_backend)" 3 1 1
      "Slice (Some 0) None (Some 3)"]
  by (simp add: demo_backend_def demo_store_def demo_dataset_def spec_slice_def)

text \<open>
  C7. Where the base store's \<open>get_a_sample(it)\<close> returns and the iteration counter is
  \<open>iter\<close>, \<open>get_a_sample(it)\<close> takes its diagnostics from
  \<open>get_value("band_info", ...)\<close> with \<open>discard = it - 1\<close>, and with \<open>thin = 1\<close> when
  \<open>it\<close> is the most recent iteration, \<open>thin = iter - it\<close> otherwise.
\<close>

theorem get_a_sample_thin_discard:
  assumes "iteration b = Inr iter" and "super_get_a_sample it b = Inr s"
  shows "get_a_sample super_get_a_sample it b =
           (case get_value ''band_info'' (if it = int iter then 1 else int iter - it) (it - 1) None b of
              Inl e \<Rightarrow> Inl e
            | Inr v \<Rightarrow> Inr \<lparr>sample_state = s, sample_band_info = v, sample_initialized = True\<rparr>)"
  using assms by (simp add: get_a_sample_def get_band_info_def Let_def)

theorem get_a_sample_thin_discard_witness:
  "iteration demo_backend = Inr 3
   \<and> get_a_sample (\<lambda>it b. Inr it) 3 demo_backend =
       (case get_value ''band_info'' 1 2 None demo_backend of
          Inl e \<Rightarrow> Inl e
        | Inr v \<Rightarrow> Inr \<lparr>sample_state = 3, sample_band_info = v, sample_initialized = True\<rparr>)
   \<and> get_a_sample (\<lambda>it b. Inr it) 1 demo_backend =
       (case get_value ''band_info'' 2 0 None demo_backend of
          Inl e \<Rightarrow> Inl e
        | Inr v \<Rightarrow> Inr \<lparr>sample_state = 1, sample_band_info = v, sample_initialized = True\<rparr>)"
  using get_a_sample_thin_discard [of demo_backend 3 "\<lambda>it b. Inr it" 3 3]
    get_a_sample_thin_discard [of demo_backend 3 "\<lambda>it b. Inr it" 1 1]
  by (simp add: iteration_def get_attr_def demo_backend_def demo_store_def)

subsection \<open>Seeding a stage from the previous stage\<close>

lemma first_index_less: "v \<in> set a \<Longrightarrow> first_index a v < length a"
  unfolding first_index_def
  by (induction a) auto

lemma first_index_nth: "v \<in> set a \<Longrightarrow> a ! first_index a v = v"
  unfolding first_index_def
  by (induction a) auto

lemma first_index_before: "j < first_index a v \<Longrightarrow> a ! j \<noteq> v"
  unfolding first_index_def
  by (metis (mono_tags, lifting) nth_mem set_takeWhileD takeWhile_nth)

lemma last_n_map: "last_n n (map f xs) = map f (last_n n xs)"
  by (simp add: last_n_def drop_map)

lemma length_last_n: "0 < n \<Longrightarrow> length (last_n n xs) = min n (length xs)"
  by (auto simp: last_n_def)

lemma set_last_n: "set (last_n n xs) \<subseteq> set xs"
  by (auto simp: last_n_def dest: in_set_dropD)

lemma is_argsort_length: "is_argsort p xs \<Longrightarrow> length p = length xs"
  unfolding is_argsort_def by (metis length_sort length_upt minus_nat.diff_0)

lemma is_argsort_set: "is_argsort p xs \<Longrightarrow> set p = {0..<length xs}"
  unfolding is_argsort_def by (metis set_sort set_upt)

lemma is_argsort_values: 
  assumes "is_argsort p xs"
  shows "set (map (\<lambda>i. xs ! i) p) = set xs"
proof -
  have "set (map (\<lambda>i. xs ! i) p) = (\<lambda>i. xs ! i) ` set [0..<length xs]"
    using is_argsort_set[OF assms] by simp
  also have "\<dots> = set (map (\<lambda>i. xs ! i) [0..<length xs])"
    by simp
  also have "\<dots> = set xs"
    by (simp only: map_nth)
  finally show ?thesis .
qed

lemma select_start_inds_eq:
  "select_start_inds p xs ntemps nwalkers =
     map (\<lambda>v. p ! first_index (map (\<lambda>i. xs ! i) p) v)
       (last_n (ntemps * nwalkers) (sort (remdups (map (\<lambda>i. xs ! i) p))))"
  by (simp add: select_start_inds_def unique_return_index_def Let_def last_n_map comp_def)

text \<open>
  C8, as amended. For every result \<open>p\<close> of the argsort of the stored log-likelihoods
  and \<open>ntemps * nwalkers \<ge> 1\<close>, the starting indices are as many as the smaller of
  \<open>ntemps * nwalkers\<close> and the number of distinct log-likelihood values; their
  log-likelihoods are the highest distinct values, ascending, one index for each; and
  each index is the first in the sorted order \<open>p\<close> that has its value.
\<close>

theorem select_start_inds_top_unique:
  assumes "is_argsort p log_prob" and "0 < ntemps * nwalkers"
  shows "length (select_start_inds p log_prob ntemps nwalkers)
           = min (ntemps * nwalkers) (card (set log_prob))
         \<and> map (\<lambda>i. log_prob ! i) (select_start_inds p log_prob ntemps nwalkers)
           = last_n (ntemps * nwalkers) (sorted_list_of_set (set log_prob))
         \<and> (\<forall>k < length (select_start_inds p log_prob ntemps nwalkers).
              \<exists>j < length p. select_start_inds p log_prob ntemps nwalkers ! k = p ! j
                 \<and> (\<forall>j' < j. log_prob ! (p ! j') \<noteq> log_prob ! (p ! j)))"
proof -
  let ?a = "map (\<lambda>i. log_prob ! i) p"
  let ?N = "ntemps * nwalkers"
  let ?top = "last_n ?N (sorted_list_of_set (set log_prob))"
  have vals: "set ?a = set log_prob" using is_argsort_values[OF assms(1)] .
  have "sort (remdups ?a) = sorted_list_of_set (set ?a)"
    by (rule sorted_list_of_set_sort_remdups[symmetric])
  also have "\<dots> = sorted_list_of_set (set log_prob)"
    by (simp only: vals)
  finally have sel: "select_start_inds p log_prob ntemps nwalkers
               = map (\<lambda>v. p ! first_index ?a v) ?top"
    by (simp only: select_start_inds_eq)
  have top_in: "v \<in> set ?a" if "v \<in> set ?top" for v
    using that set_last_n[of ?N "sorted_list_of_set (set log_prob)"] vals by auto
  have len: "length (map (\<lambda>v. p ! first_index ?a v) ?top) = min ?N (card (set log_prob))"
    using assms(2) by (simp add: length_last_n)
  have nth_a: "?a ! j = log_prob ! (p ! j)" if "j < length p" for j
    using that by simp
  have val_eq: "log_prob ! (p ! first_index ?a v) = v" if "v \<in> set ?top" for v
  proof -
    from top_in[OF that] have "first_index ?a v < length ?a" "?a ! first_index ?a v = v"
      by (rule first_index_less, rule first_index_nth)
    then show ?thesis by simp
  qed
  have vals_eq: "map (\<lambda>i. log_prob ! i) (map (\<lambda>v. p ! first_index ?a v) ?top) = ?top"
    using val_eq by (simp add: map_idI)
  have first: "\<exists>j < length p. map (\<lambda>v. p ! first_index ?a v) ?top ! k = p ! j
                 \<and> (\<forall>j' < j. log_prob ! (p ! j') \<noteq> log_prob ! (p ! j))"
    if k: "k < length (map (\<lambda>v. p ! first_index ?a v) ?top)" for k
  proof -
    let ?v = "?top ! k"
    let ?j = "first_index ?a ?v"
    from k have mem: "?v \<in> set ?top" by simp
    from top_in[OF mem] have j: "?j < length p" using first_index_less[of ?v ?a] by simp
    have "log_prob ! (p ! j') \<noteq> log_prob ! (p ! ?j)" if "j' < ?j" for j'
    proof -
      from that j have "j' < length p" by simp
      with first_index_before[OF that] have "log_prob ! (p ! j') \<noteq> ?v" by simp
      with val_eq[OF mem] show ?thesis by simp
    qed
    with j k show ?thesis by auto
  qed
  show ?thesis unfolding sel using len vals_eq first by blast
qed

theorem select_start_inds_top_unique_witness:
  "is_argsort [1, 3, 0, 2] [5, 2, 7, 5 :: int]
   \<and> select_start_inds [1, 3, 0, 2] [5, 2, 7, 5 :: int] 1 2 = [3, 2]
   \<and> select_start_inds [1, 3, 0, 2] [5, 2, 7, 5 :: int] 2 2 = [1, 3, 2]
   \<and> map (\<lambda>i. [5, 2, 7, 5 :: int] ! i) (select_start_inds [1, 3, 0, 2] [5, 2, 7, 5 :: int] 1 2)
       = last_n (1 * 2) (sorted_list_of_set (set [5, 2, 7, 5 :: int]))"
proof -
  have a: "is_argsort [1, 3, 0, 2] [5, 2, 7, 5 :: int]"
    by code_simp
  have e1: "select_start_inds [1, 3, 0, 2] [5, 2, 7, 5 :: int] 1 2 = [3, 2]"
    by code_simp
  have e2: "select_start_inds [1, 3, 0, 2] [5, 2, 7, 5 :: int] 2 2 = [1, 3, 2]"
    by code_simp
  have pos: "0 < (1::nat) * 2" by simp
  from select_start_inds_top_unique[OF a pos]
  have "map (\<lambda>i. [5, 2, 7, 5 :: int] ! i) (select_start_inds [1, 3, 0, 2] [5, 2, 7, 5 :: int] 1 2)
       = last_n (1 * 2) (sorted_list_of_set (set [5, 2, 7, 5 :: int]))"
    by blast
  with a e1 e2 show ?thesis by blast
qed

text \<open>
  The claim as stated asks for exactly \<open>ntemps * nwalkers\<close> samples. With two stored
  samples of equal log-likelihood and \<open>ntemps * nwalkers = 2\<close>, one index is chosen,
  whichever way the sort orders the tie.
\<close>

theorem select_start_inds_exactly_counterexample:
  "is_argsort [0, 1] [1, 1 :: int]
   \<and> length (select_start_inds [0, 1] [1, 1 :: int] 1 2) \<noteq> 1 * 2
   \<and> is_argsort [1, 0] [1, 1 :: int]
   \<and> length (select_start_inds [1, 0] [1, 1 :: int] 1 2) \<noteq> 1 * 2"
proof -
  have "is_argsort [0, 1] [1, 1 :: int]" by code_simp
  moreover have "select_start_inds [0, 1] [1, 1 :: int] 1 2 = [0]" by code_simp
  moreover have "is_argsort [1, 0] [1, 1 :: int]" by code_simp
  moreover have "select_start_inds [1, 0] [1, 1 :: int] 1 2 = [1]" by code_simp
  ultimately show ?thesis by simp
qed

subsection \<open>The residual container's input check\<close>

lemma check_inputs_passes_iff:
  "check_inputs dt f_arr df = None \<longleftrightarrow>
     length (filter id [dt \<noteq> None, f_arr \<noteq> None, df \<noteq> None]) \<in> {1, 3}"
  by (auto simp: check_inputs_def)

text \<open>
  C9. The claim says the constructor fails whenever more than one of \<open>dt\<close>, \<open>f_arr\<close>
  and \<open>df\<close> is supplied. Evaluated with all three supplied, \<open>_check_inputs\<close> raises
  nothing: \<open>number_of_none\<close> is 0 there, and the code tests for 3 and for 1 only.
\<close>

theorem check_inputs_all_three:
  "check_inputs (Some dt) (Some f_arr) (Some df) = None"
  by (simp add: check_inputs_def)

end
